theory Spec2Isabelle
  imports Main "HOL-Library.Word"
begin

section \<open>Go strings and the library functions used by \<open>main.go\<close>\<close>

text \<open>
  A Go string is a sequence of bytes, and \<open>len\<close> counts bytes. The HOL type
  \<open>string\<close> is a list of 8-bit characters, so a Go string is a \<open>string\<close> and
  \<open>len s\<close> is \<open>length s\<close>.
\<close>

text \<open>
  \<open>strings.Split(s, sep)\<close> for a separator of one byte, the only way \<open>main.go\<close>
  calls it: every occurrence of the byte ends a substring, so a string with \<open>n\<close>
  separators yields \<open>n + 1\<close> substrings, some of them possibly empty; the empty
  string yields the one-element slice holding the empty string.
\<close>

fun Split :: "string \<Rightarrow> char \<Rightarrow> string list" where
  "Split [] sep = [[]]"
| "Split (c # cs) sep =
     (if c = sep then [] # Split cs sep
      else (c # hd (Split cs sep)) # tl (Split cs sep))"

text \<open>
  \<open>strings.Trim(s, cutset)\<close> for a cutset of ASCII bytes: the bytes of the cutset
  are removed from the right end and then from the left end of \<open>s\<close>.
\<close>

definition trimRightASCII :: "string \<Rightarrow> string \<Rightarrow> string" where
  "trimRightASCII s cutset = rev (dropWhile (\<lambda>c. c \<in> set cutset) (rev s))"

definition trimLeftASCII :: "string \<Rightarrow> string \<Rightarrow> string" where
  "trimLeftASCII s cutset = dropWhile (\<lambda>c. c \<in> set cutset) s"

definition Trim :: "string \<Rightarrow> string \<Rightarrow> string" where
  "Trim s cutset = trimLeftASCII (trimRightASCII s cutset) cutset"

text \<open>
  \<open>strings.ToLower(s)\<close>. A string whose bytes are all below \<open>0x80\<close> (\<open>utf8.RuneSelf\<close>)
  takes the ASCII path: each byte in \<open>'A'..'Z'\<close> is moved up by \<open>'a' - 'A'\<close>, the
  others are kept. A string holding a byte from \<open>0x80\<close> on is given to
  \<open>strings.Map(unicode.ToLower, s)\<close>, which works with the Unicode case tables of
  the Go library; these are not part of the repository, so that path is the
  parameter \<open>unicodeLower\<close>, and every theorem below holds whatever it computes.
\<close>

definition isASCII :: "string \<Rightarrow> bool" where
  "isASCII s = list_all (\<lambda>c. of_char c < (0x80::nat)) s"

definition lowerByte :: "char \<Rightarrow> char" where
  "lowerByte c =
     (if of_char CHR ''A'' \<le> (of_char c :: nat) \<and> (of_char c :: nat) \<le> of_char CHR ''Z''
      then char_of ((of_char c :: nat) + (of_char CHR ''a'' - of_char CHR ''A''))
      else c)"

definition ToLower :: "(string \<Rightarrow> string) \<Rightarrow> string \<Rightarrow> string" where
  "ToLower unicodeLower s = (if isASCII s then map lowerByte s else unicodeLower s)"

text \<open>\<open>slices.Contains(xs, v)\<close>: some element of \<open>xs\<close> equals \<open>v\<close>.\<close>

definition Contains :: "'a list \<Rightarrow> 'a \<Rightarrow> bool" where
  "Contains xs v = list_ex (\<lambda>x. x = v) xs"

text \<open>\<open>strings.Join(elems, sep)\<close>: the elements in order, with \<open>sep\<close> between neighbours.\<close>

fun Join :: "string list \<Rightarrow> string \<Rightarrow> string" where
  "Join [] sep = []"
| "Join [x] sep = x"
| "Join (x # y # ys) sep = x @ sep @ Join (y # ys) sep"

section \<open>The sanitizer\<close>

definition badWords :: "string list" where
  "badWords = [''kerfuffle'', ''sharbert'', ''fornax'']"

text \<open>
  The body of the \<open>for _, v := range strSlice\<close> loop of \<open>sanitize\<close>, with the slice
  \<open>rtSlice\<close> built so far as the accumulator.
\<close>

fun sanitize_loop :: "(string \<Rightarrow> string) \<Rightarrow> string list \<Rightarrow> string list \<Rightarrow> string list" where
  "sanitize_loop unicodeLower [] rtSlice = rtSlice"
| "sanitize_loop unicodeLower (v # vs) rtSlice =
     (let clean = ToLower unicodeLower (Trim v ''.,!?'') in
      if Contains badWords clean
      then sanitize_loop unicodeLower vs (rtSlice @ [''****''])
      else sanitize_loop unicodeLower vs (rtSlice @ [v]))"

definition sanitize :: "(string \<Rightarrow> string) \<Rightarrow> string \<Rightarrow> string" where
  "sanitize unicodeLower s =
     (let strSlice = Split s CHR '' '';
          rtSlice = sanitize_loop unicodeLower strSlice []
      in Join rtSlice '' '')"

text \<open>
  What one pass of the loop appends for the token \<open>v\<close>: the mask when the cleaned
  token is a bad word, the token itself otherwise.
\<close>

definition maskToken :: "(string \<Rightarrow> string) \<Rightarrow> string \<Rightarrow> string" where
  "maskToken unicodeLower v =
     (if Contains badWords (ToLower unicodeLower (Trim v ''.,!?'')) then ''****'' else v)"


section \<open>The handlers of \<open>POST /api/chirps\<close> and \<open>POST /api/users\<close>\<close>

text \<open>
  \<open>uuid.UUID\<close> is an array of 16 bytes; \<open>time.Time\<close> is kept as an integer
  instant. \<open>sql.NullString\<close> and \<open>sql.NullTime\<close> pair a value with the flag
  \<open>Valid\<close>, which is false for SQL \<open>NULL\<close>. An \<open>error\<close> is kept as its message.
\<close>

type_synonym uuid = "128 word"

type_synonym time = int

type_synonym error = string

record NullString =
  String :: string
  Valid :: bool

record NullTime =
  Time :: time
  TimeValid :: bool

text \<open>
  The rows and parameter structs of the generated package \<open>internal/database\<close>,
  with the columns of the migration: \<open>id\<close>, \<open>created_at\<close>, \<open>updated_at\<close>,
  \<open>body\<close>, \<open>user_id\<close> for a chirp.
\<close>

record Chirp =
  ChirpID :: uuid
  ChirpCreatedAt :: NullTime
  ChirpUpdatedAt :: NullTime
  ChirpBody :: NullString
  ChirpUserID :: uuid

record CreateChirpParams =
  Body :: NullString
  UserID :: uuid

record User =
  UserIDcol :: uuid
  UserCreatedAt :: NullTime
  UserUpdatedAt :: NullTime
  UserEmail :: NullString
  UserHashedPassword :: string

record CreateUserParams =
  Email :: NullString
  HashedPassword :: string

text \<open>The request structs \<open>parameters\<close> of the two handlers, as decoded from JSON.\<close>

record chirpParameters =
  paramBody :: string
  paramUserId :: uuid

record userParameters =
  paramEmail :: string
  paramPassword :: string

text \<open>
  The response structs. \<open>respUserId\<close> holds the identifier that the handler
  renders with \<open>UUID.String()\<close>.
\<close>

record chirpResp =
  respID :: uuid
  respCreatedAt :: time
  respUpdatedAt :: time
  respBody :: string
  respUserId :: uuid

record userResp =
  uRespID :: uuid
  uRespCreatedAt :: time
  uRespUpdatedAt :: time
  uRespEmail :: string

text \<open>
  What a handler leaves in the \<open>http.ResponseWriter\<close>: the status code given to
  \<open>WriteHeader\<close> and the value whose JSON encoding was written, if any.
\<close>

datatype written = Nothing | errResp string | chirpJSON chirpResp | userJSON userResp

record response =
  statusCode :: nat
  written :: written

text \<open>
  The handler registered for \<open>POST /api/chirps\<close>. \<open>decoded\<close> is the outcome of
  \<open>decoder.Decode(&params)\<close>: \<open>Inl\<close> the error, \<open>Inr\<close> the request struct. The query
  \<open>cfg.db.CreateChirp\<close> belongs to the generated database package and is the
  parameter \<open>CreateChirp\<close>: from the store and the parameters it returns the row
  or an error, and the store afterwards. The handler returns the response and
  the store it leaves behind.
\<close>

definition postChirps ::
  "(string \<Rightarrow> string) \<Rightarrow> ('db \<Rightarrow> CreateChirpParams \<Rightarrow> (error + Chirp) \<times> 'db) \<Rightarrow>
   error + chirpParameters \<Rightarrow> 'db \<Rightarrow> response \<times> 'db" where
  "postChirps unicodeLower CreateChirp decoded db =
     (case decoded of
        Inl err \<Rightarrow> (\<lparr>statusCode = 500, written = errResp ''Something went wrong''\<rparr>, db)
      | Inr params \<Rightarrow>
          if length (paramBody params) > 140
          then (\<lparr>statusCode = 400, written = errResp ''Chirp is too long''\<rparr>, db)
          else
            let chirpParam = \<lparr>Body = \<lparr>String = sanitize unicodeLower (paramBody params),
                                       Valid = True\<rparr>,
                              UserID = paramUserId params\<rparr>
            in (case CreateChirp db chirpParam of
                  (Inl err, db') \<Rightarrow> (\<lparr>statusCode = 500, written = Nothing\<rparr>, db')
                | (Inr chirp, db') \<Rightarrow>
                    (\<lparr>statusCode = 201,
                      written = chirpJSON \<lparr>respID = ChirpID chirp,
                                           respCreatedAt = Time (ChirpCreatedAt chirp),
                                           respUpdatedAt = Time (ChirpUpdatedAt chirp),
                                           respBody = String (ChirpBody chirp),
                                           respUserId = ChirpUserID chirp\<rparr>\<rparr>, db')))"

text \<open>
  The handler registered for \<open>POST /api/users\<close>. \<open>auth.HashPassword\<close> and
  \<open>cfg.db.CreateUser\<close> are parameters, like \<open>CreateChirp\<close> above. \<open>userData\<close> is the
  struct the handler builds for the query.
\<close>

definition userData :: "userParameters \<Rightarrow> string \<Rightarrow> CreateUserParams" where
  "userData params hPassword =
     \<lparr>Email = \<lparr>String = paramEmail params, Valid = (paramEmail params \<noteq> [])\<rparr>,
      HashedPassword = hPassword\<rparr>"

definition postUsers ::
  "(string \<Rightarrow> error + string) \<Rightarrow> ('db \<Rightarrow> CreateUserParams \<Rightarrow> (error + User) \<times> 'db) \<Rightarrow>
   error + userParameters \<Rightarrow> 'db \<Rightarrow> response \<times> 'db" where
  "postUsers HashPassword CreateUser decoded db =
     (case decoded of
        Inl err \<Rightarrow> (\<lparr>statusCode = 500, written = Nothing\<rparr>, db)
      | Inr params \<Rightarrow>
          (case HashPassword (paramPassword params) of
             Inl err \<Rightarrow> (\<lparr>statusCode = 500, written = Nothing\<rparr>, db)
           | Inr hPassword \<Rightarrow>
               (case CreateUser db (userData params hPassword) of
                  (Inl err, db') \<Rightarrow> (\<lparr>statusCode = 500, written = Nothing\<rparr>, db')
                | (Inr user, db') \<Rightarrow>
                    (\<lparr>statusCode = 201,
                      written = userJSON \<lparr>uRespID = UserIDcol user,
                                          uRespCreatedAt = Time (UserCreatedAt user),
                                          uRespUpdatedAt = Time (UserUpdatedAt user),
                                          uRespEmail = String (UserEmail user)\<rparr>\<rparr>, db'))))"

section \<open>Splitting and joining\<close>

lemma Split_nonempty: "Split s c \<noteq> []"
  by (induction s) simp_all

lemma Split_no_sep: "t \<in> set (Split s c) \<Longrightarrow> c \<notin> set t"
proof (induction s arbitrary: t)
  case Nil
  then show ?case by simp
next
  case (Cons a s)
  have ne: "Split s c \<noteq> []" by (rule Split_nonempty)
  show ?case
  proof (cases "a = c")
    case True
    with Cons show ?thesis by auto
  next
    case False
    from Cons.prems False have "t = a # hd (Split s c) \<or> t \<in> set (tl (Split s c))" by simp
    then show ?thesis
    proof
      assume "t = a # hd (Split s c)"
      moreover have "c \<notin> set (hd (Split s c))" using Cons.IH ne by simp
      ultimately show ?thesis using False by auto
    next
      assume "t \<in> set (tl (Split s c))"
      then have "t \<in> set (Split s c)" using ne by (auto dest: list.set_sel(2))
      then show ?thesis by (rule Cons.IH)
    qed
  qed
qed

lemma Join_Cons: "ts \<noteq> [] \<Longrightarrow> Join (t # ts) sep = t @ sep @ Join ts sep"
  by (cases ts) simp_all

lemma Join_Split: "Join (Split s c) [c] = s"
proof (induction s)
  case Nil
  show ?case by simp
next
  case (Cons a s)
  have ne: "Split s c \<noteq> []" by (rule Split_nonempty)
  then obtain t ts where sp: "Split s c = t # ts" by (cases "Split s c") auto
  show ?case
  proof (cases "a = c")
    case True
    then show ?thesis using Cons ne by (simp add: Join_Cons)
  next
    case False
    then show ?thesis using Cons sp by (cases ts) simp_all
  qed
qed

lemma Split_append_sep: "c \<notin> set t \<Longrightarrow> Split (t @ c # s) c = t # Split s c"
  by (induction t) auto

lemma Split_no_sep_id: "c \<notin> set t \<Longrightarrow> Split t c = [t]"
  by (induction t) auto

lemma Split_Join: "ts \<noteq> [] \<Longrightarrow> \<forall>t\<in>set ts. c \<notin> set t \<Longrightarrow> Split (Join ts [c]) c = ts"
proof (induction ts)
  case Nil
  then show ?case by simp
next
  case (Cons t ts)
  show ?case
  proof (cases ts)
    case Nil
    then show ?thesis using Cons.prems by (simp add: Split_no_sep_id)
  next
    case (Cons y ys)
    then have "Split (Join ts [c]) c = ts" using Cons.IH Cons.prems by simp
    then show ?thesis using Cons Cons.prems by (simp add: Split_append_sep)
  qed
qed

lemma length_Split: "length (Split s c) = Suc (count_list s c)"
proof (induction s)
  case Nil
  show ?case by simp
next
  case (Cons a s)
  have "Split s c \<noteq> []" by (rule Split_nonempty)
  then show ?case using Cons by (cases "Split s c") auto
qed

section \<open>The loop and the mask\<close>

lemma sanitize_loop_map: "sanitize_loop u vs acc = acc @ map (maskToken u) vs"
  by (induction vs arbitrary: acc) (simp_all add: maskToken_def Let_def)

lemma sanitize_map: "sanitize u s = Join (map (maskToken u) (Split s CHR '' '')) '' ''"
  by (simp add: sanitize_def sanitize_loop_map)

lemma lowerByte_mask: "map lowerByte ''****'' = ''****''"
  by code_simp

lemma mask_clean: "ToLower u (Trim ''****'' ''.,!?'') = ''****''"
proof -
  have t: "Trim ''****'' ''.,!?'' = ''****''"
    by (simp add: Trim_def trimLeftASCII_def trimRightASCII_def)
  have a: "isASCII ''****''" by (simp add: isASCII_def)
  show ?thesis unfolding t ToLower_def using a lowerByte_mask by simp
qed

lemma mask_not_bad: "\<not> Contains badWords (ToLower u (Trim ''****'' ''.,!?''))"
  unfolding mask_clean by (simp add: Contains_def badWords_def)

lemma maskToken_idem: "maskToken u (maskToken u v) = maskToken u v"
  using mask_not_bad [of u] by (simp add: maskToken_def)

lemma maskToken_not_bad: "\<not> Contains badWords (ToLower u (Trim (maskToken u v) ''.,!?''))"
  using mask_not_bad [of u] by (simp add: maskToken_def)

lemma maskToken_no_space: "CHR '' '' \<notin> set v \<Longrightarrow> CHR '' '' \<notin> set (maskToken u v)"
  by (simp add: maskToken_def)

lemma Split_sanitize: "Split (sanitize u s) CHR '' '' = map (maskToken u) (Split s CHR '' '')"
proof -
  have ne: "map (maskToken u) (Split s CHR '' '') \<noteq> []" by (simp add: Split_nonempty)
  have ns: "\<forall>t\<in>set (map (maskToken u) (Split s CHR '' '')). CHR '' '' \<notin> set t"
  proof
    fix t assume "t \<in> set (map (maskToken u) (Split s CHR '' ''))"
    then obtain v where v: "v \<in> set (Split s CHR '' '')" and t: "t = maskToken u v" by auto
    from v have "CHR '' '' \<notin> set v" by (rule Split_no_sep)
    then show "CHR '' '' \<notin> set t" unfolding t by (rule maskToken_no_space)
  qed
  show ?thesis unfolding sanitize_map using Split_Join [OF ne ns] by simp
qed


section \<open>The claims about the sanitizer\<close>


text \<open>
  C4. Sanitizing twice is sanitizing once: \<open>sanitize (sanitize x) = sanitize x\<close>
  for every \<open>x\<close>.
\<close>

theorem sanitize_idempotent: "sanitize u (sanitize u x) = sanitize u x"
proof -
  have "sanitize u (sanitize u x) = Join (map (maskToken u) (Split (sanitize u x) CHR '' '')) '' ''"
    by (rule sanitize_map)
  also have "\<dots> = Join (map (maskToken u) (Split x CHR '' '')) '' ''"
    by (simp add: Split_sanitize maskToken_idem comp_def)
  also have "\<dots> = sanitize u x" by (simp add: sanitize_map)
  finally show ?thesis .
qed

text \<open>
  C5, as stated, says that a run of spaces collapses. It does not: at the input
  \<open>a\<close>, two spaces, \<open>b\<close> the output is the input, two spaces included.
\<close>

theorem spaces_collapse_counterexample:
  "sanitize id ''a  b'' = ''a  b'' \<and> sanitize id ''a  b'' \<noteq> ''a b''"
  by code_simp

text \<open>
  C5, amended. Every single space is a separator of its own, a run of spaces
  yields empty tokens between them, and the join puts every space back: the
  output holds exactly as many spaces as the input, and as many tokens.
\<close>

theorem sanitize_keeps_spaces:
  "count_list (sanitize u x) CHR '' '' = count_list x CHR '' ''
   \<and> length (Split x CHR '' '') = Suc (count_list x CHR '' '')"
proof -
  have "length (Split (sanitize u x) CHR '' '') = length (Split x CHR '' '')"
    by (simp add: Split_sanitize)
  then show ?thesis by (simp add: length_Split)
qed

text \<open>
  C6, as stated, says that the output is as long as the input. The input
  \<open>kerfuffle\<close> has nine bytes and its output \<open>****\<close> has four.
\<close>

theorem length_preserved_counterexample:
  "length (sanitize id ''kerfuffle'') = 4 \<and> length ''kerfuffle'' = 9"
  by code_simp

text \<open>
  C6, amended. When no token of the input is blacklisted, the output is the
  input, and so has its length.
\<close>

theorem sanitize_unmasked_length:
  assumes "\<forall>v \<in> set (Split x CHR '' ''). \<not> Contains badWords (ToLower u (Trim v ''.,!?''))"
  shows "sanitize u x = x \<and> length (sanitize u x) = length x"
proof -
  have "map (maskToken u) (Split x CHR '' '') = Split x CHR '' ''"
    using assms by (simp add: maskToken_def map_idI)
  then have "sanitize u x = x"
    using Join_Split [of x "CHR '' ''"] by (simp add: sanitize_map)
  then show ?thesis by simp
qed

theorem sanitize_unmasked_length_witness:
  "sanitize id ''hello,  world!'' = ''hello,  world!''
   \<and> length (sanitize id ''hello,  world!'') = length ''hello,  world!''"
proof -
  have "\<forall>v \<in> set (Split ''hello,  world!'' CHR '' '').
          \<not> Contains badWords (ToLower id (Trim v ''.,!?''))"
    by code_simp
  then show ?thesis by (rule sanitize_unmasked_length)
qed

text \<open>
  C9. The output has as many space-separated tokens as the input, and the
  output token at each position is the input token at that position or the
  mask \<open>****\<close>.
\<close>

theorem sanitize_token_structure:
  "length (Split (sanitize u x) CHR '' '') = length (Split x CHR '' '') \<and>
   (\<forall>i < length (Split x CHR '' '').
      Split (sanitize u x) CHR '' '' ! i = Split x CHR '' '' ! i \<or>
      Split (sanitize u x) CHR '' '' ! i = ''****'')"
  by (simp add: Split_sanitize maskToken_def)

theorem sanitize_token_structure_witness:
  "length (Split (sanitize id ''I had a kerfuffle'') CHR '' '') =
     length (Split ''I had a kerfuffle'' CHR '' '') \<and>
   (Split (sanitize id ''I had a kerfuffle'') CHR '' '' ! 3 =
      Split ''I had a kerfuffle'' CHR '' '' ! 3 \<or>
    Split (sanitize id ''I had a kerfuffle'') CHR '' '' ! 3 = ''****'')"
proof -
  have "(3::nat) < length (Split ''I had a kerfuffle'' CHR '' '')"
    by code_simp
  with sanitize_token_structure [of id "''I had a kerfuffle''"] show ?thesis
    by blast
qed

text \<open>
  C10. No token of the output is blacklisted: trimming \<open>.\<close>, \<open>,\<close>, \<open>!\<close>, \<open>?\<close> from
  a space-separated token of \<open>sanitize x\<close> and lowercasing it never gives one of
  the three bad words.
\<close>

theorem sanitize_output_clean:
  "\<forall>t \<in> set (Split (sanitize u x) CHR '' '').
     ToLower u (Trim t ''.,!?'') \<notin> {''kerfuffle'', ''sharbert'', ''fornax''}"
proof
  fix t assume "t \<in> set (Split (sanitize u x) CHR '' '')"
  then obtain v where "t = maskToken u v" by (auto simp add: Split_sanitize)
  then have "\<not> Contains badWords (ToLower u (Trim t ''.,!?''))"
    by (simp add: maskToken_not_bad)
  then show "ToLower u (Trim t ''.,!?'') \<notin> {''kerfuffle'', ''sharbert'', ''fornax''}"
    by (auto simp add: Contains_def badWords_def)
qed

theorem sanitize_output_clean_witness:
  "ToLower id (Trim ''****'' ''.,!?'') \<notin> {''kerfuffle'', ''sharbert'', ''fornax''}"
proof -
  have "''****'' \<in> set (Split (sanitize id ''Sharbert, fornax!'') CHR '' '')"
    by code_simp
  with sanitize_output_clean [of id "''Sharbert, fornax!''"] show ?thesis
    by blast
qed

section \<open>The claims about the handlers\<close>



text \<open>
  C7. The email handed to the query \<open>CreateUser\<close> is marked absent (\<open>Valid\<close> false)
  exactly when the email of the request is the empty string, and it carries the
  string of the request unchanged in every case; nothing looks at its format.
\<close>

theorem email_presence:
  "Valid (Email (userData params hPassword)) = (paramEmail params \<noteq> [])
   \<and> String (Email (userData params hPassword)) = paramEmail params"
  by (simp add: userData_def)

text \<open>
  C8. A request whose body is longer than 140 gets the 400 answer and leaves the
  store as it was, whatever the query \<open>CreateChirp\<close> would do: the handler
  returns before calling it.
\<close>

theorem rejected_chirp_not_stored:
  "140 < length (paramBody params) \<Longrightarrow>
   postChirps u CreateChirp (Inr params) db =
     (\<lparr>statusCode = 400, written = errResp ''Chirp is too long''\<rparr>, db)"
  by (simp add: postChirps_def)

theorem rejected_chirp_not_stored_witness:
  "postChirps id (\<lambda>db p. (Inl ''no row'', p # db))
     (Inr \<lparr>paramBody = replicate 141 CHR ''a'', paramUserId = 7\<rparr>) [] =
     (\<lparr>statusCode = 400, written = errResp ''Chirp is too long''\<rparr>, [])"
proof -
  have "140 < length (paramBody \<lparr>paramBody = replicate 141 CHR ''a'', paramUserId = 7\<rparr>)"
    by simp
  then show ?thesis by (rule rejected_chirp_not_stored)
qed

end
